theory Spec2Isabelle
  imports Main
begin

section \<open>The instruction-table generator \<^verbatim>\<open>main.py\<close>\<close>

text \<open>
  The whole repository is one script:
  \<^verbatim>\<open>
  import pandas as pd

  df = pd.read_csv("cpu_instruction.csv")

  for _, r in df.iterrows():
      name = r.get('name')
      operation = r.get('operation')
      addressingMode = r.get('addressingMode')
      cycle = r.get('cycles')
      print(f"Instruction::new(\"{name}\".to_string(),Some(Cpu::{operation}),Some(Cpu::{addressingMode}),{cycle}),")
  \<close>
  It is embedded statement by statement. The effects of the script (opening a file,
  writing to standard output, ending with an uncaught exception) are explicit: the script
  is a function from the state of the world before the run to the way the run ends and
  the state of the world after it.
\<close>

subsection \<open>Values, tables and the world\<close>

text \<open>
  The Python values a cell of the loaded table, or the result of a lookup, can be:
  \<^verbatim>\<open>None\<close>, a \<^verbatim>\<open>str\<close>, an integer (Python's and numpy's integers print alike), a float, and
  a truth value. A float is either not-a-number or a decimal: \<open>PyFloat m k\<close> is the double
  nearest to \<open>m / 10 ^ k\<close>. Doubles and decimals of at most 15 significant digits
  correspond one to one, and the embedding is meant for those, also where an integer
  becomes a float; it prints them in positional notation, as Python does from \<open>0.0001\<close>
  up to \<open>10 ^ 16\<close>. Every number that the embedded \<^verbatim>\<open>read_csv\<close> loads is of this kind.
\<close>

datatype pyval = PyNone | PyStr string | PyInt int | PyFloat int nat | PyNaN | PyBool bool

text \<open>
  A table has named columns, each of one dtype, and rows of values in file order.
  \<^verbatim>\<open>read_csv\<close> makes the column names of a table unique.
\<close>

datatype dtype = Int64 | Float64 | Bool | Object

record dataframe =
  columns :: "(string \<times> dtype) list"
  data :: "pyval list list"

text \<open>
  A row as \<^verbatim>\<open>iterrows\<close> hands it to the loop body is a \<^verbatim>\<open>Series\<close> indexed by the column
  names: a finite map from column names to values.
\<close>

type_synonym series = "string \<rightharpoonup> pyval"

text \<open>The exceptions that \<^verbatim>\<open>pd.read_csv\<close> raises on a file it cannot load.\<close>

datatype exn =
    FileNotFoundError
  | PermissionError
  | EmptyDataError
  | ParserError
  | UnicodeDecodeError

text \<open>
  The world: what is at each path of the file system, the paths the run has opened for
  reading, and what the run has written to standard output, one entry for each call of
  \<^verbatim>\<open>print\<close>.
\<close>

datatype file_state = Absent | Unreadable | Content string

record world =
  files :: "string \<Rightarrow> file_state"
  opened :: "string list"
  stdout :: "string list"

text \<open>A run ends after the last statement, or with an exception that nothing catches.\<close>

datatype outcome = Finished | Raised exn

definition newline :: char where
  "newline = CHR 0x0A"

subsection \<open>Loading the table\<close>

text \<open>
  \<^verbatim>\<open>pd.read_csv\<close> is library code. Its behaviour is embedded on plain comma-separated
  text, and the embedding says nothing (\<open>None\<close>) on any other file content:
  \<^item> the text has only letters, digits, underscores, full stops, commas and line feeds;
  \<^item> blank lines are skipped, the first line left is the header, the others are the data
    rows; a text with no line left has no columns, which is an \<^verbatim>\<open>EmptyDataError\<close>;
  \<^item> the header's cells are non-empty and distinct, and every data row has as many cells
    as the header;
  \<^item> a column is typed as a whole. When every cell of it is a numeral of at most 18
    digits the column holds integers (so leading zeros do not survive). Otherwise, when
    every cell of it is such a numeral or a decimal fraction (digits, a full stop,
    digits) of at most 15 digits, the column holds floats. Otherwise, when every cell of
    it is a word that starts with a letter or an underscore and is not one of the
    library's spellings of a missing value, an infinity or a truth value, the column
    holds the cells as text;
  \<^item> where \<^verbatim>\<open>iterrows\<close> will turn the integers of the table into floats, no cell has
    more than 15 characters, so that the integers have at most 15 digits.
  Quoted fields, signs, exponents, empty cells, truth values, ragged rows and repeated
  header names are thereby outside the embedded fragment.
\<close>

fun split_on :: "char \<Rightarrow> string \<Rightarrow> string list" where
  "split_on sep [] = [[]]"
| "split_on sep (c # cs) =
     (if c = sep then [] # split_on sep cs
      else (case split_on sep cs of [] \<Rightarrow> [[c]] | cell # cells \<Rightarrow> (c # cell) # cells))"

definition digit_chars :: string where
  "digit_chars = ''0123456789''"

definition upper_chars :: string where
  "upper_chars = ''ABCDEFGHIJKLMNOPQRSTUVWXYZ''"

definition lower_chars :: string where
  "lower_chars = ''abcdefghijklmnopqrstuvwxyz''"

definition word_chars :: string where
  "word_chars = upper_chars @ lower_chars @ digit_chars @ ''_''"

definition plain_chars :: string where
  "plain_chars = word_chars @ [CHR ''.'', CHR '','', newline]"

definition lower :: "char \<Rightarrow> char" where
  "lower c = (case map_of (zip upper_chars lower_chars) c of None \<Rightarrow> c | Some l \<Rightarrow> l)"

definition reserved_words :: "string list" where
  "reserved_words =
     [''na'', ''nan'', ''null'', ''none'', ''inf'', ''infinity'', ''true'', ''false'']"

definition is_word :: "string \<Rightarrow> bool" where
  "is_word cell \<longleftrightarrow> cell \<noteq> [] \<and> list_all (\<lambda>c. c \<in> set word_chars) cell"

definition is_digits :: "string \<Rightarrow> bool" where
  "is_digits cell \<longleftrightarrow> cell \<noteq> [] \<and> list_all (\<lambda>c. c \<in> set digit_chars) cell"

definition is_number :: "string \<Rightarrow> bool" where
  "is_number cell \<longleftrightarrow> is_digits cell \<and> length cell \<le> 18"

text \<open>
  A decimal fraction: its value is zero or at least \<open>0.0001\<close>, so that Python prints the
  float in positional notation.
\<close>

definition is_fraction :: "string \<Rightarrow> bool" where
  "is_fraction cell \<longleftrightarrow>
     (case split_on CHR ''.'' cell of
        [whole, frac] \<Rightarrow>
          is_digits whole \<and> is_digits frac \<and> length whole + length frac \<le> 15
          \<and> (list_all (\<lambda>c. c = CHR ''0'') (whole @ frac)
              \<or> \<not> list_all (\<lambda>c. c = CHR ''0'') (whole @ take 4 frac))
      | _ \<Rightarrow> False)"

definition is_text :: "string \<Rightarrow> bool" where
  "is_text cell \<longleftrightarrow>
     is_word cell \<and> hd cell \<notin> set digit_chars \<and> map lower cell \<notin> set reserved_words"

definition number_of :: "string \<Rightarrow> nat" where
  "number_of cell = foldl (\<lambda>n c. 10 * n + (of_char c - 48)) 0 cell"

text \<open>The dtype that the cells of a column give the column.\<close>

definition infer :: "string list \<Rightarrow> dtype option" where
  "infer cells =
     (if list_all is_number cells then Some Int64
      else if list_all (\<lambda>cell. is_number cell \<and> length cell \<le> 15 \<or> is_fraction cell) cells
        then Some Float64
      else if list_all is_text cells then Some Object
      else None)"

text \<open>The value that a cell has in a column of a dtype.\<close>

fun convert :: "dtype \<Rightarrow> string \<Rightarrow> pyval" where
  "convert Int64 cell = PyInt (int (number_of cell))"
| "convert Float64 cell =
     (case split_on CHR ''.'' cell of
        [whole, frac] \<Rightarrow> PyFloat (int (number_of (whole @ frac))) (length frac)
      | _ \<Rightarrow> PyFloat (int (number_of cell)) 0)"
| "convert Bool cell = PyBool (cell \<in> set [''True'', ''TRUE'', ''true''])"
| "convert Object cell = PyStr cell"

text \<open>
  The dtype that \<^verbatim>\<open>iterrows\<close> gives every row of a table, the common dtype of its columns:
  integers and floats together are floats, and anything else together is \<^verbatim>\<open>object\<close>.
\<close>

definition common_dtype :: "dtype list \<Rightarrow> dtype" where
  "common_dtype ts =
     (if list_all (\<lambda>t. t = Int64) ts then Int64
      else if list_all (\<lambda>t. t = Int64 \<or> t = Float64) ts then Float64
      else if list_all (\<lambda>t. t = Bool) ts then Bool
      else Object)"

definition column :: "string list list \<Rightarrow> nat \<Rightarrow> string list" where
  "column rows j = map (\<lambda>cells. cells ! j) rows"

definition lines_of :: "string \<Rightarrow> string list" where
  "lines_of text = filter (\<lambda>l. l \<noteq> []) (split_on newline text)"

definition header_of :: "string \<Rightarrow> string list" where
  "header_of text = split_on CHR '','' (hd (lines_of text))"

definition data_lines :: "string \<Rightarrow> string list" where
  "data_lines text = tl (lines_of text)"

definition parse_csv :: "string \<Rightarrow> (exn + dataframe) option" where
  "parse_csv text =
     (if \<not> list_all (\<lambda>c. c \<in> set plain_chars) text then None
      else
        (case lines_of text of
           [] \<Rightarrow> Some (Inl EmptyDataError)
         | h # ls \<Rightarrow>
             (let header = split_on CHR '','' h;
                  rows = map (split_on CHR '','') ls
              in if list_all is_word header \<and> distinct header
                    \<and> list_all (\<lambda>cells. length cells = length header) rows
                 then
                   (case those (map (\<lambda>j. infer (column rows j)) [0..<length header]) of
                      None \<Rightarrow> None
                    | Some ts \<Rightarrow>
                        if common_dtype ts = Float64
                           \<and> \<not> list_all (list_all (\<lambda>cell. length cell \<le> 15)) rows
                        then None
                        else Some (Inr \<lparr>columns = zip header ts,
                                        data = map (\<lambda>cells. map2 convert ts cells) rows\<rparr>))
                 else None)))"

text \<open>
  The call opens the file at the path for reading: a path with no file raises
  \<^verbatim>\<open>FileNotFoundError\<close>, a file the process may not read raises \<^verbatim>\<open>PermissionError\<close>.
  The call changes neither the file system nor standard output.
\<close>

definition read_csv :: "string \<Rightarrow> world \<Rightarrow> ((exn + dataframe) \<times> world) option" where
  "read_csv path w =
     (let w' = w\<lparr>opened := opened w @ [path]\<rparr>
      in case files w path of
           Absent \<Rightarrow> Some (Inl FileNotFoundError, w')
         | Unreadable \<Rightarrow> Some (Inl PermissionError, w')
         | Content text \<Rightarrow> map_option (\<lambda>loaded. (loaded, w')) (parse_csv text))"

subsection \<open>Formatting and printing\<close>

text \<open>
  \<^verbatim>\<open>str\<close> of a natural number is its decimal numeral without leading zeros; \<^verbatim>\<open>str\<close> of
  a negative number puts a minus sign in front. \<^verbatim>\<open>str\<close> of a float is the shortest decimal
  that reads back as the same double, with at least one digit after the point: for
  \<open>m / 10 ^ k\<close> the digits of \<open>m\<close> with the point before the last \<open>k\<close> of them, and the
  zeros at the end dropped.
  A replacement field \<^verbatim>\<open>{x}\<close> of an f-string with no format specification is
  \<^verbatim>\<open>format(x, '')\<close>, which for these values is \<^verbatim>\<open>str(x)\<close>. \<open>fstring\<close> is the literal text of
  the script's f-string around the texts of its four replacement fields.
\<close>

fun decimal :: "nat \<Rightarrow> string" where
  "decimal n =
     (if n < 10 then [''0123456789'' ! n]
      else decimal (n div 10) @ [''0123456789'' ! (n mod 10)])"

declare decimal.simps [simp del]

definition positional :: "nat \<Rightarrow> nat \<Rightarrow> string" where
  "positional m k =
     (let digits = decimal m;
          padded = replicate (Suc k - length digits) CHR ''0'' @ digits;
          whole = take (length padded - k) padded;
          frac = drop (length padded - k) padded;
          short = rev (dropWhile (\<lambda>c. c = CHR ''0'') (rev frac))
      in whole @ ''.'' @ (if short = [] then ''0'' else short))"

fun py_str :: "pyval \<Rightarrow> string" where
  "py_str PyNone = ''None''"
| "py_str (PyStr s) = s"
| "py_str (PyInt i) = (if i < 0 then ''-'' @ decimal (nat (- i)) else decimal (nat i))"
| "py_str (PyFloat m k) =
     (if m < 0 then ''-'' @ positional (nat (- m)) k else positional (nat m) k)"
| "py_str PyNaN = ''nan''"
| "py_str (PyBool b) = (if b then ''True'' else ''False'')"

definition fstring :: "string \<Rightarrow> string \<Rightarrow> string \<Rightarrow> string \<Rightarrow> string" where
  \<open>fstring name operation addressingMode cycle =
     ''Instruction::new("'' @ name @ ''".to_string(),Some(Cpu::'' @ operation
       @ ''),Some(Cpu::'' @ addressingMode @ ''),'' @ cycle @ ''),''\<close>

text \<open>\<^verbatim>\<open>print(s)\<close> writes \<^verbatim>\<open>s\<close> and a newline to standard output.\<close>

definition print :: "string \<Rightarrow> world \<Rightarrow> world" where
  "print s w = w\<lparr>stdout := stdout w @ [s @ [newline]]\<rparr>"

subsection \<open>The loop\<close>

text \<open>
  \<^verbatim>\<open>Series.get(key)\<close> returns the value at \<^verbatim>\<open>key\<close>, and the default \<^verbatim>\<open>None\<close> when the index
  has no such label.
\<close>

definition get :: "series \<Rightarrow> string \<Rightarrow> pyval" where
  "get r key = (case r key of None \<Rightarrow> PyNone | Some v \<Rightarrow> v)"

text \<open>
  \<^verbatim>\<open>df.iterrows()\<close> yields the pairs of index label and row, in the order of the table.
  Each row is one \<^verbatim>\<open>Series\<close> of the common dtype of the columns, so the rows of a table
  whose columns are all numeric, one of them of floats, hold floats only: its integers
  are converted. In a row of any other common dtype the values are those of the table.
\<close>

fun upcast :: "dtype \<Rightarrow> pyval \<Rightarrow> pyval" where
  "upcast Float64 (PyInt n) = PyFloat n 0"
| "upcast t v = v"

definition row_dtype :: "dataframe \<Rightarrow> dtype" where
  "row_dtype df = common_dtype (map snd (columns df))"

definition series_of :: "dataframe \<Rightarrow> pyval list \<Rightarrow> series" where
  "series_of df vals = map_of (zip (map fst (columns df)) (map (upcast (row_dtype df)) vals))"

definition iterrows :: "dataframe \<Rightarrow> (nat \<times> series) list" where
  "iterrows df = zip [0..<length (data df)] (map (series_of df) (data df))"

text \<open>
  One iteration: the four lookups, then the line built by the f-string is printed.
  \<open>line_of r\<close> is the argument of \<^verbatim>\<open>print\<close> for the row \<open>r\<close>.
\<close>

definition line_of :: "series \<Rightarrow> string" where
  "line_of r =
     (let name = get r ''name'';
          operation = get r ''operation'';
          addressingMode = get r ''addressingMode'';
          cycle = get r ''cycles''
      in fstring (py_str name) (py_str operation) (py_str addressingMode) (py_str cycle))"

definition body :: "series \<Rightarrow> world \<Rightarrow> world" where
  "body r w = print (line_of r) w"

fun for_loop :: "(nat \<times> series) list \<Rightarrow> world \<Rightarrow> world" where
  "for_loop [] w = w"
| "for_loop ((_, r) # rest) w = for_loop rest (body r w)"

text \<open>
  The script from the point where \<^verbatim>\<open>pd.read_csv\<close> has returned a table or raised: an
  exception ends the run there, since the script has no handler; a table is iterated.
\<close>

definition after_read_csv :: "exn + dataframe \<Rightarrow> world \<Rightarrow> outcome \<times> world" where
  "after_read_csv loaded w =
     (case loaded of
        Inl e \<Rightarrow> (Raised e, w)
      | Inr df \<Rightarrow> (Finished, for_loop (iterrows df) w))"

subsection \<open>The script\<close>

definition main :: "world \<Rightarrow> (outcome \<times> world) option" where
  "main w =
     map_option (\<lambda>(loaded, w'). after_read_csv loaded w') (read_csv ''cpu_instruction.csv'' w)"

subsection \<open>Observing a run\<close>

text \<open>
  What a run started in the world \<open>w\<close> shows: the way it ends, and what it has added to
  standard output. \<open>printed_by df w\<close> is what the loop over the table \<open>df\<close> adds.
\<close>

definition run :: "world \<Rightarrow> (outcome \<times> string list) option" where
  "run w = map_option (\<lambda>(out, w'). (out, drop (length (stdout w)) (stdout w'))) (main w)"

definition printed_by :: "dataframe \<Rightarrow> world \<Rightarrow> string list" where
  "printed_by df w = drop (length (stdout w)) (stdout (snd (after_read_csv (Inr df) w)))"

text \<open>
  A file system with the input file alone, and the world of a process that has not
  opened or printed anything yet.
\<close>

definition disk :: "string \<Rightarrow> string \<Rightarrow> file_state" where
  "disk text path = (if path = ''cpu_instruction.csv'' then Content text else Absent)"

definition fresh :: "(string \<Rightarrow> file_state) \<Rightarrow> world" where
  "fresh fs = \<lparr>files = fs, opened = [], stdout = []\<rparr>"

text \<open>The text of a file with the given lines, each ended by a line feed.\<close>

definition csv :: "string list \<Rightarrow> string" where
  "csv ls = concat (map (\<lambda>l. l @ [newline]) ls)"

text \<open>
  The row that \<^verbatim>\<open>iterrows\<close> makes of a data line of a file: the line's cells, as values of
  the dtypes of their columns, in a row of the common dtype.
\<close>

definition dtypes_of :: "string \<Rightarrow> dtype list" where
  "dtypes_of text =
     (case those (map (\<lambda>j. infer (column (map (split_on CHR '','') (data_lines text)) j))
                   [0..<length (header_of text)]) of
        None \<Rightarrow> []
      | Some ts \<Rightarrow> ts)"

definition row_of :: "string \<Rightarrow> string \<Rightarrow> series" where
  "row_of text line =
     map_of (zip (header_of text)
       (map (upcast (common_dtype (dtypes_of text)))
          (map2 convert (dtypes_of text) (split_on CHR '','' line))))"

text \<open>
  What the rows of a table hold, as the table stores them, under the four column names
  that the loop body looks up.
\<close>

definition four_columns :: "dataframe \<Rightarrow> pyval option list list" where
  "four_columns df =
     map (\<lambda>vals. map (map_of (zip (map fst (columns df)) vals))
                   [''name'', ''operation'', ''addressingMode'', ''cycles''])
       (data df)"

section \<open>Properties\<close>

subsection \<open>The loop and the script\<close>

lemma print_fields [simp]:
  "stdout (print s w) = stdout w @ [s @ [newline]]"
  "files (print s w) = files w"
  "opened (print s w) = opened w"
  by (simp_all add: print_def)

lemma for_loop_stdout:
  "stdout (for_loop rs w) = stdout w @ map (\<lambda>(i, r). line_of r @ [newline]) rs"
  by (induction rs w rule: for_loop.induct) (simp_all add: body_def)

lemma for_loop_frame:
  "files (for_loop rs w) = files w \<and> opened (for_loop rs w) = opened w"
  by (induction rs w rule: for_loop.induct) (simp_all add: body_def)

lemma iterrows_lines:
  "map (\<lambda>(i, r). line_of r @ [newline]) (iterrows df)
     = map (\<lambda>vals. line_of (series_of df vals) @ [newline]) (data df)"
  unfolding iterrows_def by (rule nth_equalityI) simp_all

lemma after_read_csv_table:
  "after_read_csv (Inr df) w = (out, w') \<Longrightarrow>
     out = Finished \<and> files w' = files w \<and> opened w' = opened w
     \<and> stdout w' = stdout w @ map (\<lambda>vals. line_of (series_of df vals) @ [newline]) (data df)"
  by (auto simp: after_read_csv_def for_loop_stdout for_loop_frame iterrows_lines)

lemma after_read_csv_finished:
  "fst (after_read_csv (Inr df) w) = Finished"
  by (simp add: after_read_csv_def)

lemma after_read_csv_raise:
  "after_read_csv (Inl e) w = (Raised e, w)"
  by (simp add: after_read_csv_def)

lemma printed_by_lines:
  "printed_by df w = map (\<lambda>vals. line_of (series_of df vals) @ [newline]) (data df)"
  by (simp add: printed_by_def after_read_csv_def for_loop_stdout iterrows_lines)

lemma those_length:
  "those xs = Some ys \<Longrightarrow> length ys = length xs"
  by (induction xs arbitrary: ys) (auto split: option.splits)

lemma parse_csv_table:
  assumes "parse_csv t = Some (Inr df)"
  shows "map fst (columns df) = header_of t"
    and "map snd (columns df) = dtypes_of t"
    and "data df = map (\<lambda>l. map2 convert (dtypes_of t) (split_on CHR '','' l)) (data_lines t)"
proof -
  from assms obtain h ls ts where l: "lines_of t = h # ls"
    and ts: "those (map (\<lambda>j. infer (column (map (split_on CHR '','') ls) j))
               [0..<length (split_on CHR '','' h)]) = Some ts"
    and df: "df = \<lparr>columns = zip (split_on CHR '','' h) ts,
               data = map (\<lambda>cells. map2 convert ts cells) (map (split_on CHR '','') ls)\<rparr>"
    by (auto simp: parse_csv_def Let_def split: if_splits list.splits option.splits)
  from ts have n: "length ts = length (split_on CHR '','' h)"
    by (auto dest: those_length)
  from l ts have d: "dtypes_of t = ts"
    by (simp add: dtypes_of_def header_of_def data_lines_def)
  from df n l show "map fst (columns df) = header_of t"
    by (simp add: header_of_def)
  from df n d show "map snd (columns df) = dtypes_of t"
    by simp
  from df d l show "data df = map (\<lambda>l. map2 convert (dtypes_of t) (split_on CHR '','' l)) (data_lines t)"
    by (simp add: data_lines_def comp_def)
qed

lemma parse_csv_rows:
  assumes "parse_csv t = Some (Inr df)"
  shows "map (series_of df) (data df) = map (row_of t) (data_lines t)"
  using parse_csv_table [OF assms]
  by (simp add: series_of_def row_of_def row_dtype_def comp_def)

lemma parse_csv_lines:
  assumes "parse_csv t = Some (Inr df)"
  shows "map (\<lambda>vals. line_of (series_of df vals) @ [newline]) (data df)
       = map (\<lambda>l. line_of (row_of t l) @ [newline]) (data_lines t)"
proof -
  have "map (\<lambda>vals. line_of (series_of df vals) @ [newline]) (data df)
      = map (\<lambda>r. line_of r @ [newline]) (map (series_of df) (data df))"
    by (simp add: comp_def)
  also have "\<dots> = map (\<lambda>r. line_of r @ [newline]) (map (row_of t) (data_lines t))"
    by (simp only: parse_csv_rows [OF assms])
  finally show ?thesis
    by (simp add: comp_def)
qed

lemma run_eq:
  "run w =
     (case files w ''cpu_instruction.csv'' of
        Absent \<Rightarrow> Some (Raised FileNotFoundError, [])
      | Unreadable \<Rightarrow> Some (Raised PermissionError, [])
      | Content t \<Rightarrow>
          map_option
            (\<lambda>loaded. case loaded of
               Inl e \<Rightarrow> (Raised e, [])
             | Inr df \<Rightarrow> (Finished, printed_by df w0))
            (parse_csv t))"
proof (cases "files w ''cpu_instruction.csv''")
  case (Content t)
  show ?thesis
  proof (cases "parse_csv t")
    case None
    with Content show ?thesis
      by (simp add: run_def main_def read_csv_def Let_def)
  next
    case (Some loaded)
    with Content show ?thesis
      by (cases loaded)
        (simp_all add: run_def main_def read_csv_def Let_def after_read_csv_def
          for_loop_stdout iterrows_lines printed_by_lines)
  qed
qed (simp_all add: run_def main_def read_csv_def Let_def after_read_csv_def)

lemma run_loaded:
  assumes "files w ''cpu_instruction.csv'' = Content t" and "parse_csv t = Some (Inr df)"
  shows "run w = Some (Finished, printed_by df w)"
  using assms by (simp add: run_eq [of w w])

lemma run_finished:
  assumes "run w = Some (Finished, printed)" and "files w ''cpu_instruction.csv'' = Content t"
  shows "\<exists>df. parse_csv t = Some (Inr df) \<and> printed = printed_by df w"
proof -
  from assms obtain loaded where p: "parse_csv t = Some loaded"
    and c: "(case loaded of Inl e \<Rightarrow> (Raised e, [])
             | Inr df \<Rightarrow> (Finished, printed_by df w)) = (Finished, printed)"
    by (auto simp: run_eq [of w w])
  then show ?thesis
    by (cases loaded) auto
qed

lemma run_raised:
  assumes "run w = Some (Raised e, printed)"
  shows "printed = []"
proof (cases "files w ''cpu_instruction.csv''")
  case (Content t)
  with assms obtain loaded where
    "(case loaded of Inl e \<Rightarrow> (Raised e, [])
      | Inr df \<Rightarrow> (Finished, printed_by df w)) = (Raised e, printed)"
    by (auto simp: run_eq [of w w])
  then show ?thesis
    by (cases loaded) auto
qed (use assms in \<open>auto simp: run_eq [of w w]\<close>)

lemma main_cases:
  assumes "main w = Some (out, w')"
  shows "files w' = files w \<and> opened w' = opened w @ [''cpu_instruction.csv'']
       \<and> (\<exists>printed. stdout w' = stdout w @ printed)"
proof -
  let ?w = "w\<lparr>opened := opened w @ [''cpu_instruction.csv'']\<rparr>"
  from assms obtain loaded where a: "after_read_csv loaded ?w = (out, w')"
    by (auto simp: main_def read_csv_def Let_def split: file_state.splits)
  show ?thesis
  proof (cases loaded)
    case (Inl e)
    with a show ?thesis
      by (auto simp: after_read_csv_raise)
  next
    case (Inr df)
    with a after_read_csv_table [of df ?w out w'] show ?thesis
      by auto
  qed
qed

lemma split_on_chars:
  "c \<in> set t \<Longrightarrow> c \<noteq> sep \<Longrightarrow> \<exists>l \<in> set (split_on sep t). c \<in> set l"
  by (induction t) (auto split: list.splits)

lemma lines_of_chars:
  assumes "c \<in> set t"
  shows "c = newline \<or> (\<exists>l \<in> set (lines_of t). c \<in> set l)"
proof (cases "c = newline")
  case False
  with assms obtain l where "l \<in> set (split_on newline t)" "c \<in> set l"
    using split_on_chars by metis
  then show ?thesis by (auto simp: lines_of_def)
qed simp

lemma split_on_subset:
  "l \<in> set (split_on sep t) \<Longrightarrow> set l \<subseteq> set t"
proof (induction t arbitrary: l)
  case Nil
  then show ?case by simp
next
  case (Cons a t)
  show ?case
  proof (cases "a = sep")
    case True
    with Cons show ?thesis by auto
  next
    case False
    then obtain x xs where s: "split_on sep t = x # xs"
      by (cases "split_on sep t") (cases t; simp split: if_splits list.splits)+
    with False Cons.prems have "l = a # x \<or> l \<in> set xs"
      by simp
    with s Cons.IH [of x] Cons.IH [of l] show ?thesis
      by auto
  qed
qed

lemma plain_by_lines:
  "list_all (\<lambda>c. c \<in> set plain_chars) t
     \<longleftrightarrow> list_all (list_all (\<lambda>c. c \<in> set plain_chars)) (lines_of t)"
proof
  assume "list_all (\<lambda>c. c \<in> set plain_chars) t"
  moreover have "set l \<subseteq> set t" if "l \<in> set (lines_of t)" for l
    using that split_on_subset [of l newline t] by (simp add: lines_of_def)
  ultimately show "list_all (list_all (\<lambda>c. c \<in> set plain_chars)) (lines_of t)"
    unfolding list_all_iff by blast
next
  assume a: "list_all (list_all (\<lambda>c. c \<in> set plain_chars)) (lines_of t)"
  have "newline \<in> set plain_chars"
    by (simp add: plain_chars_def)
  with a lines_of_chars [of _ t] show "list_all (\<lambda>c. c \<in> set plain_chars) t"
    unfolding list_all_iff by blast
qed

lemma parse_csv_by_lines:
  "lines_of t = lines_of t' \<Longrightarrow> parse_csv t = parse_csv t'"
proof -
  assume l: "lines_of t = lines_of t'"
  have "list_all (\<lambda>c. c \<in> set plain_chars) t \<longleftrightarrow> list_all (\<lambda>c. c \<in> set plain_chars) t'"
    using plain_by_lines [of t] plain_by_lines [of t'] l by simp
  with l show ?thesis
    by (simp add: parse_csv_def)
qed

lemma printed_by_world:
  "printed_by df w = printed_by df w'"
  by (simp add: printed_by_lines)

lemma run_by_lines:
  assumes "files w ''cpu_instruction.csv'' = Content t"
    and "files w' ''cpu_instruction.csv'' = Content t'"
    and "lines_of t = lines_of t'"
  shows "run w = run w'"
  using assms parse_csv_by_lines [OF assms(3)]
  by (simp add: run_eq [of w w] run_eq [of w' w])

lemma files_fresh_disk:
  "files (fresh (disk t)) ''cpu_instruction.csv'' = Content t"
  by (simp add: fresh_def disk_def)

lemma map_of_zip_map:
  "map_of (zip ks (map f vs)) key = map_option f (map_of (zip ks vs) key)"
  by (induction ks arbitrary: vs) (auto split: list.splits simp: zip_Cons1)

lemma series_of_key:
  "series_of df vals key
     = map_option (upcast (row_dtype df)) (map_of (zip (map fst (columns df)) vals) key)"
  by (simp add: series_of_def map_of_zip_map)

lemma series_of_absent:
  "key \<notin> set (map fst (columns df)) \<Longrightarrow> series_of df vals key = None"
  by (auto simp: series_of_key map_of_eq_None_iff dest: set_zip_leftD)

lemma line_of_shape:
  \<open>line_of r =
     ''Instruction::new("'' @ py_str (get r ''name'') @ ''".to_string(),Some(Cpu::''
       @ py_str (get r ''operation'') @ ''),Some(Cpu::'' @ py_str (get r ''addressingMode'')
       @ ''),'' @ py_str (get r ''cycles'') @ ''),''\<close>
  by (simp add: line_of_def fstring_def Let_def)

lemma decimal_nonempty:
  "decimal n \<noteq> []"
  by (subst decimal.simps) simp

lemma positional_whole:
  "positional n 0 = decimal n @ ''.0''"
proof -
  have "Suc 0 - length (decimal n) = 0"
    using decimal_nonempty [of n] by (cases "decimal n") simp_all
  then show ?thesis
    by (simp add: positional_def Let_def)
qed

lemma py_str_upcast:
  "py_str (upcast Float64 (PyInt (int n))) = decimal n @ ''.0''"
  by (simp add: positional_whole)

lemma number_of_snoc:
  "number_of (s @ [c]) = 10 * number_of s + (of_char c - 48)"
  by (simp add: number_of_def)

lemma digit_char_value:
  assumes "c \<in> set digit_chars"
  shows "(of_char c :: nat) - 48 < 10 \<and> ''0123456789'' ! (of_char c - 48) = c"
  using assms by (auto simp: digit_chars_def)

lemma decimal_snoc:
  assumes "0 < n" and "d < 10"
  shows "decimal (10 * n + d) = decimal n @ [''0123456789'' ! d]"
  using assms by (subst decimal.simps) simp

lemma number_of_pos:
  assumes "list_all (\<lambda>c. c \<in> set digit_chars) s" and "s \<noteq> []" and "hd s \<noteq> CHR ''0''"
  shows "0 < number_of s"
  using assms
proof (induction s rule: rev_induct)
  case Nil
  then show ?case by simp
next
  case (snoc c s)
  show ?case
  proof (cases "s = []")
    case True
    with snoc.prems show ?thesis
      by (auto simp: number_of_def digit_chars_def)
  next
    case False
    with snoc have "0 < number_of s"
      by simp
    then show ?thesis
      by (simp add: number_of_snoc)
  qed
qed

lemma decimal_number_of:
  assumes "list_all (\<lambda>c. c \<in> set digit_chars) s" and "s \<noteq> []"
    and "hd s \<noteq> CHR ''0'' \<or> s = ''0''"
  shows "decimal (number_of s) = s"
  using assms
proof (induction s rule: rev_induct)
  case Nil
  then show ?case by simp
next
  case (snoc c s)
  from snoc.prems(1) have c: "c \<in> set digit_chars"
    by simp
  show ?case
  proof (cases "s = []")
    case True
    with digit_char_value [OF c] show ?thesis
      by (simp add: number_of_def decimal.simps)
  next
    case False
    with snoc.prems have h: "hd s \<noteq> CHR ''0''" and d: "list_all (\<lambda>c. c \<in> set digit_chars) s"
      by auto
    with False snoc.IH have "decimal (number_of s) = s"
      by simp
    moreover from number_of_pos [OF d False h] have "0 < number_of s" .
    ultimately show ?thesis
      using digit_char_value [OF c] by (simp add: number_of_snoc decimal_snoc)
  qed
qed

lemma py_str_canonical_number:
  assumes "is_digits cell" and "hd cell \<noteq> CHR ''0'' \<or> cell = ''0''"
  shows "py_str (convert Int64 cell) = cell"
  using assms decimal_number_of [of cell] by (simp add: is_digits_def)

lemma printed_by_four:
  "printed_by df w =
     map (\<lambda>c. fstring
            (py_str (case c ! 0 of None \<Rightarrow> PyNone | Some v \<Rightarrow> upcast (row_dtype df) v))
            (py_str (case c ! 1 of None \<Rightarrow> PyNone | Some v \<Rightarrow> upcast (row_dtype df) v))
            (py_str (case c ! 2 of None \<Rightarrow> PyNone | Some v \<Rightarrow> upcast (row_dtype df) v))
            (py_str (case c ! 3 of None \<Rightarrow> PyNone | Some v \<Rightarrow> upcast (row_dtype df) v))
          @ [newline])
       (four_columns df)"
proof -
  have "(case map_option f x of None \<Rightarrow> PyNone | Some v \<Rightarrow> v)
      = (case x of None \<Rightarrow> PyNone | Some v \<Rightarrow> f v)" for f and x :: "pyval option"
    by (cases x) simp_all
  then show ?thesis
    by (simp add: printed_by_lines four_columns_def line_of_def get_def series_of_key Let_def
        comp_def)
qed

lemma common_dtype_object:
  "Object \<in> set ts \<Longrightarrow> common_dtype ts = Object"
  by (auto simp: common_dtype_def list_all_iff)

subsection \<open>The claims\<close>

text \<open>
  C1, as the script has it. For every row of the table that the script iterates, the line
  printed for the row has the exact shape
  \<^verbatim>\<open>Instruction::new("<name>".to_string(),Some(Cpu::<operation>),Some(Cpu::<addressingMode>),<cycles>),\<close>
  where each of the four placeholders is \<^verbatim>\<open>str\<close> of the value that the row, as \<^verbatim>\<open>iterrows\<close>
  hands it to the loop body, holds under that column name, put in with no escaping. That
  value is the table's value, converted to a float when the rows of the table are of
  floats. A text is printed as it is, whatever characters it has; an integer is printed
  as its decimal numeral, which is the text of a numeral cell when that has no leading
  zero; an integer of at most 15 digits converted to a float is printed with \<^verbatim>\<open>.0\<close> after
  the numeral. A run on a file that loads as the table prints these lines.
\<close>

theorem emitted_line_shape:
  assumes "i < length (data df)"
  shows \<open>fst (after_read_csv (Inr df) w) = Finished
       \<and> printed_by df w ! i =
           (let r = series_of df (data df ! i)
            in ''Instruction::new("'' @ py_str (get r ''name'') @ ''".to_string(),Some(Cpu::''
                 @ py_str (get r ''operation'') @ ''),Some(Cpu::''
                 @ py_str (get r ''addressingMode'') @ ''),'' @ py_str (get r ''cycles'')
                 @ ''),'' @ [newline])
       \<and> (\<forall>key. series_of df (data df ! i) key
             = map_option (upcast (row_dtype df))
                 (map_of (zip (map fst (columns df)) (data df ! i)) key))
       \<and> (\<forall>s. py_str (PyStr s) = s)
       \<and> (\<forall>n. py_str (PyInt (int n)) = decimal n)
       \<and> (\<forall>n < 10 ^ 15. py_str (upcast Float64 (PyInt (int n))) = decimal n @ ''.0'')
       \<and> (\<forall>cell. is_digits cell \<and> (hd cell \<noteq> CHR ''0'' \<or> cell = ''0'')
             \<longrightarrow> py_str (convert Int64 cell) = cell)
       \<and> (files w ''cpu_instruction.csv'' = Content t \<and> parse_csv t = Some (Inr df)
             \<longrightarrow> run w = Some (Finished, printed_by df w))\<close>
proof -
  from assms have "printed_by df w ! i = line_of (series_of df (data df ! i)) @ [newline]"
    by (simp add: printed_by_lines)
  then show ?thesis
    using py_str_canonical_number run_loaded [of w t df]
    by (simp add: line_of_shape Let_def after_read_csv_finished series_of_key py_str_upcast
        del: append_assoc upcast.simps)
qed

theorem emitted_line_shape_witness:
  \<open>0 < length (data \<lparr>columns = [(''name'', Object), (''operation'', Object),
                                  (''addressingMode'', Object), (''cycles'', Int64)],
                       data = [[PyStr ''L"A'', PyStr ''load'', PyStr ''immediate'', PyInt 2]]\<rparr>)
     \<and> fst (after_read_csv
          (Inr \<lparr>columns = [(''name'', Object), (''operation'', Object),
                            (''addressingMode'', Object), (''cycles'', Int64)],
                 data = [[PyStr ''L"A'', PyStr ''load'', PyStr ''immediate'', PyInt 2]]\<rparr>)
          (fresh (disk []))) = Finished
     \<and> printed_by \<lparr>columns = [(''name'', Object), (''operation'', Object),
                              (''addressingMode'', Object), (''cycles'', Int64)],
                   data = [[PyStr ''L"A'', PyStr ''load'', PyStr ''immediate'', PyInt 2]]\<rparr>
          (fresh (disk [])) ! 0
       = ''Instruction::new("L"A".to_string(),Some(Cpu::load),Some(Cpu::immediate),2),''
           @ [newline]\<close>
proof -
  let ?df = \<open>\<lparr>columns = [(''name'', Object), (''operation'', Object),
                          (''addressingMode'', Object), (''cycles'', Int64)],
               data = [[PyStr ''L"A'', PyStr ''load'', PyStr ''immediate'', PyInt 2]]\<rparr>\<close>
  have i: "0 < length (data ?df)"
    by simp
  have g: "get (series_of ?df (data ?df ! 0)) ''name'' = PyStr ''L\"A''"
    "get (series_of ?df (data ?df ! 0)) ''operation'' = PyStr ''load''"
    "get (series_of ?df (data ?df ! 0)) ''addressingMode'' = PyStr ''immediate''"
    "get (series_of ?df (data ?df ! 0)) ''cycles'' = PyInt 2"
    by (simp_all add: get_def series_of_def row_dtype_def common_dtype_def)
  have d: "decimal 2 = ''2''"
    by code_simp
  from emitted_line_shape [OF i, of "fresh (disk [])"] i g d show ?thesis
    by (simp add: Let_def)
qed

text \<open>
  C1 as stated, with \<^verbatim>\<open><cycles>\<close> the text of the cell as it appears in the file, fails on
  the row \<^verbatim>\<open>LDA,load_accumulator,immediate,02\<close>: the line printed ends in \<^verbatim>\<open>,2),\<close> and
  not in \<^verbatim>\<open>,02),\<close>.
\<close>

theorem cycles_not_verbatim:
  "run (fresh (disk (csv [''name,operation,addressingMode,cycles'',
                          ''LDA,load_accumulator,immediate,02''])))
     = Some (Finished, [fstring ''LDA'' ''load_accumulator'' ''immediate'' ''2'' @ [newline]])
   \<and> run (fresh (disk (csv [''name,operation,addressingMode,cycles'',
                            ''LDA,load_accumulator,immediate,02''])))
     \<noteq> Some (Finished, [fstring ''LDA'' ''load_accumulator'' ''immediate'' ''02'' @ [newline]])"
  by code_simp

text \<open>
  C2. The loop over a table finishes and prints as many lines as the table has rows. A
  run on a file that loads finishes and prints as many lines as the file has data rows
  (the lines that are not blank, after the header), one for each; on a file with a
  header and no data row it prints nothing.
\<close>

theorem one_line_per_row:
  "fst (after_read_csv (Inr df) w) = Finished
   \<and> length (printed_by df w) = length (data df)
   \<and> (files w ''cpu_instruction.csv'' = Content t \<and> parse_csv t = Some (Inr df)
        \<longrightarrow> run w = Some (Finished, printed_by df w)
            \<and> length (printed_by df w) = length (data_lines t)
            \<and> (data_lines t = [] \<longrightarrow> run w = Some (Finished, [])))"
proof -
  have "length (printed_by df w) = length (data_lines t)" if "parse_csv t = Some (Inr df)"
    by (simp add: printed_by_lines parse_csv_lines [OF that])
  then show ?thesis
    using run_loaded [of w t df]
    by (auto simp: after_read_csv_finished printed_by_lines)
qed

theorem one_line_per_row_witness:
  \<open>parse_csv (csv [''name,operation,addressingMode,cycles'',
                   ''LDA,load_accumulator,immediate,2'', ''BRK,force_break,implied,7''])
     = Some (Inr \<lparr>columns = [(''name'', Object), (''operation'', Object),
                              (''addressingMode'', Object), (''cycles'', Int64)],
                   data = [[PyStr ''LDA'', PyStr ''load_accumulator'', PyStr ''immediate'', PyInt 2],
                           [PyStr ''BRK'', PyStr ''force_break'', PyStr ''implied'', PyInt 7]]\<rparr>)
   \<and> run (fresh (disk (csv [''name,operation,addressingMode,cycles'',
                            ''LDA,load_accumulator,immediate,2'', ''BRK,force_break,implied,7''])))
     = Some (Finished,
         [''Instruction::new("LDA".to_string(),Some(Cpu::load_accumulator),Some(Cpu::immediate),2),''
            @ [newline],
          ''Instruction::new("BRK".to_string(),Some(Cpu::force_break),Some(Cpu::implied),7),''
            @ [newline]])
   \<and> length (data_lines (csv [''name,operation,addressingMode,cycles'',
                 ''LDA,load_accumulator,immediate,2'', ''BRK,force_break,implied,7''])) = 2
   \<and> data_lines (csv [''name,operation,addressingMode,cycles'']) = []
   \<and> run (fresh (disk (csv [''name,operation,addressingMode,cycles''])))  = Some (Finished, [])\<close>
proof -
  let ?t = "csv [''name,operation,addressingMode,cycles'',
                 ''LDA,load_accumulator,immediate,2'', ''BRK,force_break,implied,7'']"
  let ?df = "\<lparr>columns = [(''name'', Object), (''operation'', Object),
                         (''addressingMode'', Object), (''cycles'', Int64)],
              data = [[PyStr ''LDA'', PyStr ''load_accumulator'', PyStr ''immediate'', PyInt 2],
                      [PyStr ''BRK'', PyStr ''force_break'', PyStr ''implied'', PyInt 7]]\<rparr>"
  let ?hdr = "csv [''name,operation,addressingMode,cycles'']"
  let ?empty = "\<lparr>columns = [(''name'', Int64), (''operation'', Int64),
                          (''addressingMode'', Int64), (''cycles'', Int64)], data = []\<rparr>"
  have p: "parse_csv ?t = Some (Inr ?df)"
    by code_simp
  have l: \<open>printed_by ?df (fresh (disk ?t))
      = [''Instruction::new("LDA".to_string(),Some(Cpu::load_accumulator),Some(Cpu::immediate),2),''
           @ [newline],
         ''Instruction::new("BRK".to_string(),Some(Cpu::force_break),Some(Cpu::implied),7),''
           @ [newline]]\<close>
    by code_simp
  have p0: "parse_csv ?hdr = Some (Inr ?empty)"
    by code_simp
  have d0: "data_lines ?hdr = []"
    by code_simp
  from one_line_per_row [of ?df "fresh (disk ?t)" ?t] p l
  have "run (fresh (disk ?t)) = Some (Finished, printed_by ?df (fresh (disk ?t)))"
    and "length (printed_by ?df (fresh (disk ?t))) = length (data_lines ?t)"
    by (simp_all add: files_fresh_disk)
  moreover from one_line_per_row [of ?empty "fresh (disk ?hdr)" ?hdr] p0 d0
  have "run (fresh (disk ?hdr)) = Some (Finished, [])"
    by (simp add: files_fresh_disk)
  ultimately show ?thesis
    using p l d0 by simp
qed

text \<open>
  C3. A run that loads its input file prints the lines of the data rows in file order:
  what is printed is the list of the data rows with each row replaced by its line, so
  the i-th line printed comes from the i-th data row, and no row is dropped, repeated or
  moved.
\<close>

theorem lines_in_row_order:
  assumes "run w = Some (Finished, printed)"
    and "files w ''cpu_instruction.csv'' = Content t"
  shows "printed = map (\<lambda>l. line_of (row_of t l) @ [newline]) (data_lines t)
       \<and> (\<forall>i < length (data_lines t).
             printed ! i = line_of (row_of t (data_lines t ! i)) @ [newline])"
proof -
  from run_finished [OF assms] obtain df where p: "parse_csv t = Some (Inr df)"
    and d: "printed = printed_by df w"
    by blast
  from d have "printed = map (\<lambda>l. line_of (row_of t l) @ [newline]) (data_lines t)"
    by (simp add: printed_by_lines parse_csv_lines [OF p])
  then show ?thesis
    by simp
qed

theorem lines_in_row_order_witness:
  "run (fresh (disk (csv [''name,operation,addressingMode,cycles'',
                          ''LDA,load_accumulator,immediate,2'',
                          ''BRK,force_break,implied,7''])))
     = Some (Finished,
         [fstring ''LDA'' ''load_accumulator'' ''immediate'' ''2'' @ [newline],
          fstring ''BRK'' ''force_break'' ''implied'' ''7'' @ [newline]])
   \<and> [fstring ''LDA'' ''load_accumulator'' ''immediate'' ''2'' @ [newline],
       fstring ''BRK'' ''force_break'' ''implied'' ''7'' @ [newline]]
     = map (\<lambda>l. line_of (row_of (csv [''name,operation,addressingMode,cycles'',
                                       ''LDA,load_accumulator,immediate,2'',
                                       ''BRK,force_break,implied,7'']) l)
                 @ [newline])
         [''LDA,load_accumulator,immediate,2'', ''BRK,force_break,implied,7'']"
proof -
  let ?t = "csv [''name,operation,addressingMode,cycles'', ''LDA,load_accumulator,immediate,2'',
                 ''BRK,force_break,implied,7'']"
  have r: "run (fresh (disk ?t))
      = Some (Finished,
         [fstring ''LDA'' ''load_accumulator'' ''immediate'' ''2'' @ [newline],
          fstring ''BRK'' ''force_break'' ''implied'' ''7'' @ [newline]])"
    by code_simp
  have d: "data_lines ?t = [''LDA,load_accumulator,immediate,2'', ''BRK,force_break,implied,7'']"
    by code_simp
  from lines_in_row_order [OF r files_fresh_disk] r show ?thesis
    unfolding d by blast
qed

text \<open>
  C4. When the lines of the input file are the header
  \<^verbatim>\<open>name,operation,addressingMode,cycles\<close> and the one data row
  \<^verbatim>\<open>LDA,load_accumulator,immediate,2\<close>, the run finishes and prints exactly the one line
  \<^verbatim>\<open>Instruction::new("LDA".to_string(),Some(Cpu::load_accumulator),Some(Cpu::immediate),2),\<close>
\<close>

theorem lda_scenario:
  assumes "files w ''cpu_instruction.csv'' = Content t"
    and "lines_of t = [''name,operation,addressingMode,cycles'', ''LDA,load_accumulator,immediate,2'']"
  shows \<open>run w = Some (Finished,
      [''Instruction::new("LDA".to_string(),Some(Cpu::load_accumulator),Some(Cpu::immediate),2),''
         @ [newline]])\<close>
proof -
  let ?t = "csv [''name,operation,addressingMode,cycles'', ''LDA,load_accumulator,immediate,2'']"
  have "lines_of ?t = [''name,operation,addressingMode,cycles'', ''LDA,load_accumulator,immediate,2'']"
    by code_simp
  with assms(2) have "run w = run (fresh (disk ?t))"
    by (intro run_by_lines [OF assms(1) files_fresh_disk]) simp
  also have \<open>\<dots> = Some (Finished,
      [''Instruction::new("LDA".to_string(),Some(Cpu::load_accumulator),Some(Cpu::immediate),2),''
         @ [newline]])\<close>
    by code_simp
  finally show ?thesis .
qed

theorem lda_scenario_witness:
  \<open>lines_of (''name,operation,addressingMode,cycles'' @ [newline]
              @ ''LDA,load_accumulator,immediate,2'')
     = [''name,operation,addressingMode,cycles'', ''LDA,load_accumulator,immediate,2'']
   \<and> run (fresh (disk (''name,operation,addressingMode,cycles'' @ [newline]
                         @ ''LDA,load_accumulator,immediate,2'')))
     = Some (Finished,
        [''Instruction::new("LDA".to_string(),Some(Cpu::load_accumulator),Some(Cpu::immediate),2),''
           @ [newline]])\<close>
proof -
  let ?t = "''name,operation,addressingMode,cycles'' @ [newline] @ ''LDA,load_accumulator,immediate,2''"
  have l: "lines_of ?t
      = [''name,operation,addressingMode,cycles'', ''LDA,load_accumulator,immediate,2'']"
    by code_simp
  from lda_scenario [OF files_fresh_disk l] l show ?thesis
    by simp
qed

text \<open>
  C5. When the table has no column of some name, the loop does not fail: it finishes
  with one line for each row, every lookup of that name yields \<^verbatim>\<open>None\<close>, and the line of
  every row is the template
  \<^verbatim>\<open>Instruction::new("<name>".to_string(),Some(Cpu::<operation>),Some(Cpu::<addressingMode>),<cycles>),\<close>
  with \<^verbatim>\<open>str(None)\<close> at each position that is filled from that name, and the row's values
  at the other positions. A run on a file that loads as such a table, which is a file
  whose header lacks the name, finishes with these lines.
\<close>

theorem absent_column_marker:
  assumes "key \<notin> set (map fst (columns df))"
  shows \<open>fst (after_read_csv (Inr df) w) = Finished
       \<and> length (printed_by df w) = length (data df)
       \<and> (\<forall>i < length (data df).
             get (series_of df (data df ! i)) key = PyNone
             \<and> printed_by df w ! i =
                 (let r = series_of df (data df ! i);
                      field = (\<lambda>k. if k = key then py_str PyNone else py_str (get r k))
                  in ''Instruction::new("'' @ field ''name'' @ ''".to_string(),Some(Cpu::''
                       @ field ''operation'' @ ''),Some(Cpu::'' @ field ''addressingMode''
                       @ ''),'' @ field ''cycles'' @ ''),'' @ [newline]))
       \<and> (files w ''cpu_instruction.csv'' = Content t \<and> parse_csv t = Some (Inr df)
             \<longrightarrow> run w = Some (Finished, printed_by df w) \<and> key \<notin> set (header_of t))\<close>
proof -
  have g: "get (series_of df vals) key = PyNone" for vals
    using series_of_absent [OF assms] by (simp add: get_def)
  have "printed_by df w ! i =
      (let r = series_of df (data df ! i);
           field = (\<lambda>k. if k = key then py_str PyNone else py_str (get r k))
       in ''Instruction::new(\"'' @ field ''name'' @ ''\".to_string(),Some(Cpu::''
            @ field ''operation'' @ ''),Some(Cpu::'' @ field ''addressingMode''
            @ ''),'' @ field ''cycles'' @ ''),'' @ [newline])"
    if "i < length (data df)" for i
    using that g by (auto simp: printed_by_lines line_of_shape Let_def)
  moreover have "key \<notin> set (header_of t)" if "parse_csv t = Some (Inr df)"
    using assms parse_csv_table(1) [OF that] by simp
  ultimately show ?thesis
    using g run_loaded [of w t df]
    by (simp add: after_read_csv_finished printed_by_lines)
qed

theorem absent_column_marker_witness:
  \<open>parse_csv (csv [''name,operation,addressingMode'', ''LDA,load_accumulator,immediate''])
     = Some (Inr \<lparr>columns = [(''name'', Object), (''operation'', Object),
                              (''addressingMode'', Object)],
                   data = [[PyStr ''LDA'', PyStr ''load_accumulator'', PyStr ''immediate'']]\<rparr>)
   \<and> ''cycles'' \<notin> set (map fst [(''name'', Object), (''operation'', Object),
                                  (''addressingMode'', Object)])
   \<and> run (fresh (disk (csv [''name,operation,addressingMode'', ''LDA,load_accumulator,immediate''])))
     = Some (Finished,
        [''Instruction::new("LDA".to_string(),Some(Cpu::load_accumulator),Some(Cpu::immediate),None),''
           @ [newline]])\<close>
proof -
  let ?t = "csv [''name,operation,addressingMode'', ''LDA,load_accumulator,immediate'']"
  let ?df = "\<lparr>columns = [(''name'', Object), (''operation'', Object),
                         (''addressingMode'', Object)],
              data = [[PyStr ''LDA'', PyStr ''load_accumulator'', PyStr ''immediate'']]\<rparr>"
  have p: "parse_csv ?t = Some (Inr ?df)"
    by code_simp
  have k: "''cycles'' \<notin> set (map fst (columns ?df))"
    by simp
  have l: \<open>printed_by ?df (fresh (disk ?t))
      = [''Instruction::new("LDA".to_string(),Some(Cpu::load_accumulator),Some(Cpu::immediate),None),''
           @ [newline]]\<close>
    by code_simp
  from absent_column_marker [OF k, of "fresh (disk ?t)" ?t] p
  have "run (fresh (disk ?t)) = Some (Finished, printed_by ?df (fresh (disk ?t)))"
    by (simp add: files_fresh_disk)
  with p l show ?thesis
    by simp
qed

text \<open>
  C6. When the input file is absent, may not be read, or has no columns to parse, the
  run ends with the exception that \<^verbatim>\<open>pd.read_csv\<close> raised and has printed nothing. More
  generally, a run that ends with an exception has printed nothing, and whatever
  exception the call raises, the script does nothing after it: the run ends with that
  exception in the world the call left.
\<close>

theorem load_failure_propagates:
  "(files w ''cpu_instruction.csv'' = Absent \<longrightarrow> run w = Some (Raised FileNotFoundError, []))
   \<and> (files w ''cpu_instruction.csv'' = Unreadable \<longrightarrow> run w = Some (Raised PermissionError, []))
   \<and> (files w ''cpu_instruction.csv'' = Content t \<and> lines_of t = []
        \<longrightarrow> run w = Some (Raised EmptyDataError, []))
   \<and> (\<forall>e printed. run w = Some (Raised e, printed) \<longrightarrow> printed = [])
   \<and> (\<forall>e. after_read_csv (Inl e) w = (Raised e, w))"
proof -
  have "parse_csv t = Some (Inl EmptyDataError)" if "lines_of t = []"
    using that plain_by_lines [of t] by (simp add: parse_csv_def)
  moreover have "printed = []" if "run w = Some (Raised e, printed)" for e printed
    using that by (rule run_raised)
  ultimately show ?thesis
    by (auto simp: run_eq [of w w] after_read_csv_raise)
qed

theorem load_failure_propagates_witness:
  "files (fresh (\<lambda>path. Absent)) ''cpu_instruction.csv'' = Absent
   \<and> run (fresh (\<lambda>path. Absent)) = Some (Raised FileNotFoundError, [])
   \<and> lines_of [newline] = []
   \<and> run (fresh (disk [newline])) = Some (Raised EmptyDataError, [])"
proof -
  have a: "files (fresh (\<lambda>path. Absent)) ''cpu_instruction.csv'' = Absent"
    by (simp add: fresh_def)
  have l: "lines_of [newline] = []"
    by code_simp
  from load_failure_propagates [of "fresh (\<lambda>path. Absent)"] a
  have "run (fresh (\<lambda>path. Absent)) = Some (Raised FileNotFoundError, [])"
    by blast
  moreover from load_failure_propagates [of "fresh (disk [newline])" "[newline]"] l
  have "run (fresh (disk [newline])) = Some (Raised EmptyDataError, [])"
    by (simp add: files_fresh_disk)
  ultimately show ?thesis
    using a l by simp
qed

text \<open>
  C7. The way a run ends and what it prints are a function of the input file alone: two
  runs that find the same content at the path of the input file end the same way and
  print the same lines, whatever else differs between the worlds they start in.
\<close>

theorem same_file_same_output:
  "files w1 ''cpu_instruction.csv'' = files w2 ''cpu_instruction.csv'' \<Longrightarrow> run w1 = run w2"
  by (simp add: run_eq [of w1 w1] run_eq [of w2 w1])

theorem same_file_same_output_witness:
  "files (fresh (disk (csv [''name,cycles'', ''LDA,2''])))  ''cpu_instruction.csv''
     = files \<lparr>files = (disk (csv [''name,cycles'', ''LDA,2''])) (''notes.txt'' := Content ''x''),
              opened = [''notes.txt''], stdout = [''earlier'']\<rparr> ''cpu_instruction.csv''
   \<and> run (fresh (disk (csv [''name,cycles'', ''LDA,2''])))
     = run \<lparr>files = (disk (csv [''name,cycles'', ''LDA,2''])) (''notes.txt'' := Content ''x''),
            opened = [''notes.txt''], stdout = [''earlier'']\<rparr>
   \<and> run (fresh (disk (csv [''name,cycles'', ''LDA,2''])))
     = Some (Finished, [fstring ''LDA'' ''None'' ''None'' ''2'' @ [newline]])"
proof -
  let ?t = "csv [''name,cycles'', ''LDA,2'']"
  let ?w = "\<lparr>files = (disk ?t) (''notes.txt'' := Content ''x''),
              opened = [''notes.txt''], stdout = [''earlier'']\<rparr>"
  have f: "files (fresh (disk ?t)) ''cpu_instruction.csv'' = files ?w ''cpu_instruction.csv''"
    by (simp add: fresh_def)
  have r: "run (fresh (disk ?t)) = Some (Finished, [fstring ''LDA'' ''None'' ''None'' ''2'' @ [newline]])"
    by code_simp
  from same_file_same_output [OF f] f r show ?thesis
    by simp
qed

text \<open>
  C8, as the script has it. Two tables whose rows agree, in order, on what they store
  under the names \<^verbatim>\<open>name\<close>, \<^verbatim>\<open>operation\<close>, \<^verbatim>\<open>addressingMode\<close> and \<^verbatim>\<open>cycles\<close>, and whose rows
  \<^verbatim>\<open>iterrows\<close> gives the same dtype, make the loop print the same lines, whatever other
  columns the tables have and in whatever order their columns stand; runs on files that
  load as these tables are the same. The rows of a table with a column of text are of
  dtype \<^verbatim>\<open>object\<close>, so the condition on the dtype holds of any two tables that each have
  a column of text.
\<close>

theorem only_four_columns_matter:
  assumes "four_columns df1 = four_columns df2"
    and "row_dtype df1 = row_dtype df2"
  shows "printed_by df1 w1 = printed_by df2 w2
       \<and> (files w1 ''cpu_instruction.csv'' = Content t1 \<and> parse_csv t1 = Some (Inr df1)
          \<and> files w2 ''cpu_instruction.csv'' = Content t2 \<and> parse_csv t2 = Some (Inr df2)
          \<longrightarrow> run w1 = run w2 \<and> run w1 = Some (Finished, printed_by df1 w1))
       \<and> (Object \<in> set (map snd (columns df1)) \<longrightarrow> row_dtype df1 = Object)"
proof -
  have "printed_by df1 w1 = printed_by df2 w2"
    by (simp only: printed_by_four [of df1 w1] printed_by_four [of df2 w2] assms)
  then show ?thesis
    using run_loaded [of w1 t1 df1] run_loaded [of w2 t2 df2]
    by (auto simp: row_dtype_def common_dtype_object)
qed

theorem only_four_columns_matter_witness:
  \<open>parse_csv (csv [''name,operation,addressingMode,cycles'', ''LDA,load_accumulator,immediate,2''])
     = Some (Inr \<lparr>columns = [(''name'', Object), (''operation'', Object),
                              (''addressingMode'', Object), (''cycles'', Int64)],
                   data = [[PyStr ''LDA'', PyStr ''load_accumulator'', PyStr ''immediate'', PyInt 2]]\<rparr>)
   \<and> parse_csv (csv [''cycles,weight,addressingMode,name,opcode,operation'',
                     ''2,0.5,immediate,LDA,xA9,load_accumulator''])
     = Some (Inr \<lparr>columns = [(''cycles'', Int64), (''weight'', Float64),
                              (''addressingMode'', Object), (''name'', Object),
                              (''opcode'', Object), (''operation'', Object)],
                   data = [[PyInt 2, PyFloat 5 1, PyStr ''immediate'', PyStr ''LDA'',
                            PyStr ''xA9'', PyStr ''load_accumulator'']]\<rparr>)
   \<and> run (fresh (disk (csv [''name,operation,addressingMode,cycles'',
                            ''LDA,load_accumulator,immediate,2''])))
     = run (fresh (disk (csv [''cycles,weight,addressingMode,name,opcode,operation'',
                              ''2,0.5,immediate,LDA,xA9,load_accumulator''])))
   \<and> run (fresh (disk (csv [''cycles,weight,addressingMode,name,opcode,operation'',
                            ''2,0.5,immediate,LDA,xA9,load_accumulator''])))
     = Some (Finished,
        [''Instruction::new("LDA".to_string(),Some(Cpu::load_accumulator),Some(Cpu::immediate),2),''
           @ [newline]])\<close>
proof -
  let ?t1 = "csv [''name,operation,addressingMode,cycles'', ''LDA,load_accumulator,immediate,2'']"
  let ?t2 = "csv [''cycles,weight,addressingMode,name,opcode,operation'',
                  ''2,0.5,immediate,LDA,xA9,load_accumulator'']"
  let ?df1 = "\<lparr>columns = [(''name'', Object), (''operation'', Object),
                          (''addressingMode'', Object), (''cycles'', Int64)],
               data = [[PyStr ''LDA'', PyStr ''load_accumulator'', PyStr ''immediate'', PyInt 2]]\<rparr>"
  let ?df2 = "\<lparr>columns = [(''cycles'', Int64), (''weight'', Float64),
                          (''addressingMode'', Object), (''name'', Object),
                          (''opcode'', Object), (''operation'', Object)],
               data = [[PyInt 2, PyFloat 5 1, PyStr ''immediate'', PyStr ''LDA'',
                        PyStr ''xA9'', PyStr ''load_accumulator'']]\<rparr>"
  have p1: "parse_csv ?t1 = Some (Inr ?df1)" and p2: "parse_csv ?t2 = Some (Inr ?df2)"
    by code_simp+
  have f: "four_columns ?df1 = four_columns ?df2"
    by code_simp
  have d: "row_dtype ?df1 = row_dtype ?df2"
    by code_simp
  have l: \<open>printed_by ?df1 (fresh (disk ?t1))
      = [''Instruction::new("LDA".to_string(),Some(Cpu::load_accumulator),Some(Cpu::immediate),2),''
           @ [newline]]\<close>
    by code_simp
  note m = only_four_columns_matter [OF f d, of "fresh (disk ?t1)" "fresh (disk ?t2)" ?t1 ?t2]
  from m p1 p2 files_fresh_disk [of ?t1] files_fresh_disk [of ?t2]
  have a: "run (fresh (disk ?t1)) = run (fresh (disk ?t2))"
    by blast
  from m p1 p2 files_fresh_disk [of ?t1] files_fresh_disk [of ?t2]
  have b: "run (fresh (disk ?t1)) = Some (Finished, printed_by ?df1 (fresh (disk ?t1)))"
    by blast
  from b l have c: \<open>run (fresh (disk ?t1)) = Some (Finished,
      [''Instruction::new("LDA".to_string(),Some(Cpu::load_accumulator),Some(Cpu::immediate),2),''
         @ [newline]])\<close>
    by (simp only:)
  from a c have e: \<open>run (fresh (disk ?t2)) = Some (Finished,
      [''Instruction::new("LDA".to_string(),Some(Cpu::load_accumulator),Some(Cpu::immediate),2),''
         @ [newline]])\<close>
    by (simp only:)
  from p1 p2 a e show ?thesis
    by blast
qed

text \<open>
  C8 as stated, for any two files that agree on the four columns, fails: beside four
  columns of integers, one more column of floats makes \<^verbatim>\<open>iterrows\<close> hand over rows of
  floats, and the line of the row \<^verbatim>\<open>1,2,3,4\<close> has \<^verbatim>\<open>1.0\<close>, \<^verbatim>\<open>2.0\<close>, \<^verbatim>\<open>3.0\<close> and \<^verbatim>\<open>4.0\<close> in it.
\<close>

theorem extra_float_column_changes_output:
  \<open>parse_csv (csv [''name,operation,addressingMode,cycles'', ''1,2,3,4''])
     = Some (Inr \<lparr>columns = [(''name'', Int64), (''operation'', Int64),
                              (''addressingMode'', Int64), (''cycles'', Int64)],
                   data = [[PyInt 1, PyInt 2, PyInt 3, PyInt 4]]\<rparr>)
   \<and> parse_csv (csv [''name,operation,addressingMode,cycles,weight'', ''1,2,3,4,0.5''])
     = Some (Inr \<lparr>columns = [(''name'', Int64), (''operation'', Int64),
                              (''addressingMode'', Int64), (''cycles'', Int64),
                              (''weight'', Float64)],
                   data = [[PyInt 1, PyInt 2, PyInt 3, PyInt 4, PyFloat 5 1]]\<rparr>)
   \<and> four_columns \<lparr>columns = [(''name'', Int64), (''operation'', Int64),
                               (''addressingMode'', Int64), (''cycles'', Int64)],
                    data = [[PyInt 1, PyInt 2, PyInt 3, PyInt 4]]\<rparr>
     = four_columns \<lparr>columns = [(''name'', Int64), (''operation'', Int64),
                                 (''addressingMode'', Int64), (''cycles'', Int64),
                                 (''weight'', Float64)],
                      data = [[PyInt 1, PyInt 2, PyInt 3, PyInt 4, PyFloat 5 1]]\<rparr>
   \<and> run (fresh (disk (csv [''name,operation,addressingMode,cycles'', ''1,2,3,4''])))
     = Some (Finished,
        [''Instruction::new("1".to_string(),Some(Cpu::2),Some(Cpu::3),4),'' @ [newline]])
   \<and> run (fresh (disk (csv [''name,operation,addressingMode,cycles,weight'', ''1,2,3,4,0.5''])))
     = Some (Finished,
        [''Instruction::new("1.0".to_string(),Some(Cpu::2.0),Some(Cpu::3.0),4.0),'' @ [newline]])
   \<and> run (fresh (disk (csv [''name,operation,addressingMode,cycles'', ''1,2,3,4''])))
     \<noteq> run (fresh (disk (csv [''name,operation,addressingMode,cycles,weight'', ''1,2,3,4,0.5''])))\<close>
  by code_simp

text \<open>
  C9. A run leaves the file system as it found it, opens the input file and no other
  path, once, and only adds to standard output.
\<close>

theorem main_frame_effect:
  assumes "main w = Some (out, w')"
  shows "files w' = files w
       \<and> opened w' = opened w @ [''cpu_instruction.csv'']
       \<and> (\<exists>printed. stdout w' = stdout w @ printed)"
  using main_cases [OF assms] .

theorem main_frame_effect_witness:
  "\<exists>w'. main (fresh (disk (csv [''name,cycles'', ''LDA,2''])))  = Some (Finished, w')
     \<and> files w' = disk (csv [''name,cycles'', ''LDA,2''])
     \<and> opened w' = [''cpu_instruction.csv'']
     \<and> stdout w' = [fstring ''LDA'' ''None'' ''None'' ''2'' @ [newline]]"
proof -
  let ?t = "csv [''name,cycles'', ''LDA,2'']"
  have "run (fresh (disk ?t)) = Some (Finished, [fstring ''LDA'' ''None'' ''None'' ''2'' @ [newline]])"
    by code_simp
  then obtain w' where m: "main (fresh (disk ?t)) = Some (Finished, w')"
    and s: "drop (length (stdout (fresh (disk ?t)))) (stdout w')
       = [fstring ''LDA'' ''None'' ''None'' ''2'' @ [newline]]"
    by (auto simp: run_def)
  from main_frame_effect [OF m] s have "files w' = disk ?t \<and> opened w' = [''cpu_instruction.csv'']
     \<and> stdout w' = [fstring ''LDA'' ''None'' ''None'' ''2'' @ [newline]]"
    by (auto simp: fresh_def)
  with m show ?thesis
    by blast
qed

text \<open>
  C10. The marker for a missing column is the text \<^verbatim>\<open>None\<close>: for a row that holds nothing
  under a name, the lookup of that name yields Python's \<^verbatim>\<open>None\<close>, whose \<^verbatim>\<open>str\<close> is the four
  characters \<^verbatim>\<open>None\<close>, and the line printed for the row has \<^verbatim>\<open>None\<close> at each position of
  the template that is filled from that name.
\<close>

theorem none_marker:
  assumes "i < length (data df)" and "series_of df (data df ! i) key = None"
  shows "get (series_of df (data df ! i)) key = PyNone
       \<and> py_str (get (series_of df (data df ! i)) key) = ''None''
       \<and> fst (after_read_csv (Inr df) w) = Finished
       \<and> (let field = (\<lambda>k. if k = key then ''None''
                             else py_str (get (series_of df (data df ! i)) k))
          in stdout (snd (after_read_csv (Inr df) w)) ! (length (stdout w) + i)
             = fstring (field ''name'') (field ''operation'') (field ''addressingMode'')
                 (field ''cycles'') @ [newline])"
proof -
  from assms(2) have g: "get (series_of df (data df ! i)) key = PyNone"
    by (simp add: get_def)
  obtain out w' where a: "after_read_csv (Inr df) w = (out, w')"
    by (cases "after_read_csv (Inr df) w")
  note t = after_read_csv_table [OF a]
  with assms(1) have "stdout w' ! (length (stdout w) + i)
      = line_of (series_of df (data df ! i)) @ [newline]"
    by simp
  with g a t show ?thesis
    by (auto simp: line_of_def Let_def)
qed

theorem none_marker_witness:
  \<open>0 < length (data \<lparr>columns = [(''name'', Object), (''addressingMode'', Object)],
                     data = [[PyStr ''LDA'', PyStr ''immediate'']]\<rparr>)
     \<and> series_of \<lparr>columns = [(''name'', Object), (''addressingMode'', Object)],
                  data = [[PyStr ''LDA'', PyStr ''immediate'']]\<rparr>
          [PyStr ''LDA'', PyStr ''immediate''] ''operation'' = None
     \<and> stdout (snd (after_read_csv
          (Inr \<lparr>columns = [(''name'', Object), (''addressingMode'', Object)],
                data = [[PyStr ''LDA'', PyStr ''immediate'']]\<rparr>)
          (fresh (disk [])))) ! 0
       = ''Instruction::new("LDA".to_string(),Some(Cpu::None),Some(Cpu::immediate),None),''
           @ [newline]\<close>
proof -
  let ?df = "\<lparr>columns = [(''name'', Object), (''addressingMode'', Object)],
              data = [[PyStr ''LDA'', PyStr ''immediate'']]\<rparr>"
  have i: "0 < length (data ?df)"
    by simp
  have k: "series_of ?df (data ?df ! 0) ''operation'' = None"
    by (simp add: series_of_def)
  from none_marker [OF i k, of "fresh (disk [])"] i k show ?thesis
    by (simp add: get_def fstring_def fresh_def Let_def series_of_def row_dtype_def
        common_dtype_def)
qed

end
